theory Spec2Isabelle
  imports Complex_Main "HOL-Library.Sublist"
begin

section \<open>Python values and strings\<close>

text \<open>
  The program is \<^verbatim>\<open>src/modal_app.py\<close>. A Python \<^verbatim>\<open>str\<close> is modelled as a \<^typ>\<open>string\<close>,
  every \<^typ>\<open>char\<close> standing for one code point below 256. Values that arrive from the
  JSON body of a request are modelled by \<open>json\<close>: \<^verbatim>\<open>None\<close>, \<^verbatim>\<open>bool\<close>, \<^verbatim>\<open>int\<close>
  (unbounded), \<^verbatim>\<open>float\<close> (a finite number), \<^verbatim>\<open>str\<close>, \<^verbatim>\<open>list\<close> and \<^verbatim>\<open>dict\<close>. A dict is
  the list of its items in insertion order; its keys are distinct, as the keys of a Python
  dict are.
\<close>

datatype json =
    JNull
  | JBool bool
  | JInt int
  | JFloat real
  | JStr string
  | JList "json list"
  | JDict "(string \<times> json) list"

text \<open>Truth value of a Python object (\<^verbatim>\<open>bool(v)\<close>, as used by \<^verbatim>\<open>not v\<close>, \<^verbatim>\<open>v or w\<close>, \<^verbatim>\<open>if v\<close>).\<close>

fun py_truthy :: "json \<Rightarrow> bool" where
  "py_truthy JNull = False"
| "py_truthy (JBool b) = b"
| "py_truthy (JInt n) = (n \<noteq> 0)"
| "py_truthy (JFloat x) = (x \<noteq> 0)"
| "py_truthy (JStr s) = (s \<noteq> [])"
| "py_truthy (JList xs) = (xs \<noteq> [])"
| "py_truthy (JDict kvs) = (kvs \<noteq> [])"

text \<open>\<^verbatim>\<open>type(v).__name__\<close>.\<close>

fun py_type_name :: "json \<Rightarrow> string" where
  "py_type_name JNull = ''NoneType''"
| "py_type_name (JBool b) = ''bool''"
| "py_type_name (JInt n) = ''int''"
| "py_type_name (JFloat x) = ''float''"
| "py_type_name (JStr s) = ''str''"
| "py_type_name (JList xs) = ''list''"
| "py_type_name (JDict kvs) = ''dict''"

text \<open>
  \<^verbatim>\<open>str.isspace\<close> on one character, for code points below 256: TAB, LF, VT, FF, CR,
  the separators FS, GS, RS, US, SPACE, NEL (0x85) and NO-BREAK SPACE (0xA0).
\<close>

definition py_isspace :: "char \<Rightarrow> bool" where
  "py_isspace c =
     (let n = (of_char c :: nat)
      in (9 \<le> n \<and> n \<le> 13) \<or> (28 \<le> n \<and> n \<le> 32) \<or> n = 133 \<or> n = 160)"

text \<open>\<^verbatim>\<open>s.strip()\<close>: leading and trailing whitespace removed.\<close>

definition strip :: "string \<Rightarrow> string" where
  "strip s = rev (dropWhile py_isspace (rev (dropWhile py_isspace s)))"

text \<open>
  \<^verbatim>\<open>s.split(d)\<close> for a one-character separator \<open>d\<close>: the pieces between the separators,
  empty pieces kept; the result always has at least one element.
\<close>

fun split_on :: "char \<Rightarrow> string \<Rightarrow> string list" where
  "split_on d [] = [[]]"
| "split_on d (c # cs) =
     (if c = d then [] # split_on d cs
      else (case split_on d cs of
              [] \<Rightarrow> [[c]]
            | w # ws \<Rightarrow> (c # w) # ws))"

text \<open>
  \<^verbatim>\<open>s.split()\<close> without a separator: leading whitespace is skipped, then the run of
  characters up to the next whitespace is one word, and so on to the end of the string.
\<close>

function split_ws :: "string \<Rightarrow> string list" where
  "split_ws s =
     (case dropWhile py_isspace s of
        [] \<Rightarrow> []
      | c # cs \<Rightarrow>
          takeWhile (\<lambda>x. \<not> py_isspace x) (c # cs)
            # split_ws (dropWhile (\<lambda>x. \<not> py_isspace x) (c # cs)))"
  by pat_completeness auto
termination
proof (relation "measure length")
  show "wf (measure length)" by simp
next
  fix s :: string and c cs
  assume d: "dropWhile py_isspace s = c # cs"
  then have nsp: "\<not> py_isspace c"
    by (metis hd_dropWhile list.sel(1) list.distinct(1))
  have "length (dropWhile (\<lambda>x. \<not> py_isspace x) (c # cs)) \<le> length cs"
    using nsp by (simp add: length_dropWhile_le)
  moreover have "length (c # cs) \<le> length s"
    using d length_dropWhile_le [of py_isspace s] by simp
  ultimately show "(dropWhile (\<lambda>x. \<not> py_isspace x) (c # cs), s) \<in> measure length"
    by simp
qed

declare split_ws.simps [simp del]

section \<open>Text analysis\<close>

text \<open>\<^verbatim>\<open>count_words\<close>: \<^verbatim>\<open>len(text.split())\<close>.\<close>

definition count_words :: "string \<Rightarrow> int" where
  "count_words text = int (length (split_ws text))"

text \<open>
  The \<^verbatim>\<open>for line in lines\<close> loop of \<^verbatim>\<open>extract_hook\<close>: the first line whose stripped text
  is non-empty replaces \<open>first_line\<close> (and the loop breaks); otherwise \<open>first_line\<close> stays.
\<close>

fun first_stripped :: "string \<Rightarrow> string list \<Rightarrow> string" where
  "first_stripped first_line [] = first_line"
| "first_stripped first_line (line # lines) =
     (if strip line \<noteq> [] then strip line else first_stripped first_line lines)"

text \<open>
  \<^verbatim>\<open>extract_hook\<close>. \<^verbatim>\<open>lines[0]\<close> and \<^verbatim>\<open>sentences[0]\<close> read the first element of the result
  of a \<^verbatim>\<open>split\<close>, which is never empty (\<open>split_on_Cons\<close> below); the model reads them by
  a \<open>case\<close> whose empty branch is the \<^verbatim>\<open>IndexError\<close> of Python, shown as \<open>None\<close>.
\<close>

definition extract_hook :: "string \<Rightarrow> string option" where
  "extract_hook script =
     (case split_on (CHR 0x0A) script of
        [] \<Rightarrow> None
      | l0 # ls \<Rightarrow>
          (let first_line = strip l0;
               first_line = (if first_line = [] then first_stripped first_line (l0 # ls)
                             else first_line)
           in if first_line = [] then
                (case split_on CHR ''.'' script of
                   [] \<Rightarrow> Some (take 100 script)
                 | s0 # ss \<Rightarrow>
                     (let first_line = strip s0 @ ''.''
                      in Some (if first_line \<noteq> [] then first_line else take 100 script)))
              else Some first_line))"

section \<open>More of Python's strings\<close>

text \<open>
  \<^verbatim>\<open>str.lower\<close> on one character, for code points below 256: the letters A to Z and the
  Latin-1 capitals 0xC0 to 0xDE (without the multiplication sign 0xD7) move up by 32,
  which sets bit 5 of the code point.
\<close>

definition py_lower_char :: "char \<Rightarrow> char" where
  "py_lower_char c =
     (let n = (of_char c :: nat)
      in if (65 \<le> n \<and> n \<le> 90) \<or> (192 \<le> n \<and> n \<le> 222 \<and> n \<noteq> 215)
         then (case c of Char b0 b1 b2 b3 b4 b5 b6 b7 \<Rightarrow> Char b0 b1 b2 b3 b4 True b6 b7)
         else c)"

definition py_lower :: "string \<Rightarrow> string" where
  "py_lower s = map py_lower_char s"

text \<open>\<^verbatim>\<open>needle in hay\<close> for two strings.\<close>

fun str_in :: "string \<Rightarrow> string \<Rightarrow> bool" where
  "str_in needle [] = (needle = [])"
| "str_in needle (c # cs) = (prefix needle (c # cs) \<or> str_in needle cs)"

text \<open>\<^verbatim>\<open>str(n)\<close> for an integer: decimal digits, a minus sign for a negative number.\<close>

function str_nat :: "nat \<Rightarrow> string" where
  "str_nat n =
     (if n < 10 then [''0123456789'' ! n]
      else str_nat (n div 10) @ [''0123456789'' ! (n mod 10)])"
  by pat_completeness auto
termination
  by (relation "measure id") auto

declare str_nat.simps [simp del]

definition str_int :: "int \<Rightarrow> string" where
  "str_int i = (if i < 0 then CHR ''-'' # str_nat (nat (- i)) else str_nat (nat i))"

section \<open>Dictionaries, exceptions, the environment\<close>

text \<open>\<^verbatim>\<open>d.get(k, dflt)\<close> and \<^verbatim>\<open>d[k] = v\<close> on a dict given by its items.\<close>

definition dict_get :: "(string \<times> 'v) list \<Rightarrow> string \<Rightarrow> 'v \<Rightarrow> 'v" where
  "dict_get d k dflt = (case map_of d k of None \<Rightarrow> dflt | Some v \<Rightarrow> v)"

fun dict_set :: "string \<Rightarrow> 'v \<Rightarrow> (string \<times> 'v) list \<Rightarrow> (string \<times> 'v) list" where
  "dict_set k v [] = [(k, v)]"
| "dict_set k v ((k', v') # d) = (if k' = k then (k, v) # d else (k', v') # dict_set k v d)"

text \<open>
  An exception is its class and its message (\<^verbatim>\<open>str(e)\<close>). \<open>PlainException\<close> is the class
  \<^verbatim>\<open>Exception\<close> itself; every class here is a subclass of \<^verbatim>\<open>Exception\<close>.
\<close>

datatype exc_class =
  ValueError | TypeError | AttributeError | IndexError | UnboundLocalError | PlainException

type_synonym py_exc = "exc_class \<times> string"

text \<open>One call of \<^verbatim>\<open>client.chat.completions.create\<close>: the two messages, the model, the budget.
  Temperature 0.7 and seed 42 are the same in every call.\<close>

record completion_call =
  system_message :: string
  user_prompt :: string
  call_model :: string
  call_max_tokens :: int

text \<open>
  What the functions read from outside themselves:
  \<^item> the module constants \<open>MODEL_NAME\<close> and \<open>API_KEY\<close>, read from the process environment;
  \<^item> \<open>py_set_str\<close>, Python's \<^verbatim>\<open>str()\<close> of a set of strings (its order depends on the
    hash seed of the process), given the members;
  \<^item> \<open>py_obj_str\<close>, Python's \<^verbatim>\<open>str()\<close> of a float, a list or a dict;
  \<^item> \<open>json_loads\<close>, \<^verbatim>\<open>json.loads\<close>, \<open>None\<close> when it raises;
  \<^item> \<open>complete\<close>, the completion client: for a call, either the message of the exception
    raised while the request is made and the response is read, or the text of the first
    choice and \<^verbatim>\<open>usage.total_tokens\<close>.
\<close>

record env =
  MODEL_NAME :: string
  API_KEY :: string
  py_set_str :: "string list \<Rightarrow> string"
  py_obj_str :: "json \<Rightarrow> string"
  json_loads :: "string \<Rightarrow> json option"
  complete :: "completion_call \<Rightarrow> string + (string \<times> int)"

text \<open>What an f-string puts in for a value: \<^verbatim>\<open>format(v, "")\<close>, that is \<^verbatim>\<open>str(v)\<close>.\<close>

definition py_format :: "env \<Rightarrow> json \<Rightarrow> string" where
  "py_format env v =
     (case v of
        JStr s \<Rightarrow> s
      | JNull \<Rightarrow> ''None''
      | JBool b \<Rightarrow> (if b then ''True'' else ''False'')
      | JInt n \<Rightarrow> str_int n
      | _ \<Rightarrow> py_obj_str env v)"

section \<open>Schema validator\<close>

definition LENGTH_TO_TOKENS :: "(string \<times> int) list" where
  "LENGTH_TO_TOKENS = [(''20s'', 100), (''30s'', 150), (''45s'', 225), (''60s'', 300)]"

definition LENGTH_TO_WORDS :: "(string \<times> string) list" where
  "LENGTH_TO_WORDS =
     [(''20s'', ''30-50''), (''30s'', ''45-75''), (''45s'', ''70-110''), (''60s'', ''90-150'')]"

definition VALID_LENGTHS :: "string list" where
  "VALID_LENGTHS = [''20s'', ''30s'', ''45s'', ''60s'']"

definition VALID_TONES :: "string list" where
  "VALID_TONES = [''neutral'', ''curious'', ''dramatic'', ''serious'', ''funny'', ''inspirational'']"

definition VALID_HOOK_STYLES :: "string list" where
  "VALID_HOOK_STYLES = [''question'', ''shock'', ''bold claim'', ''story'']"

text \<open>
  \<^verbatim>\<open>v in S\<close> for a set \<open>S\<close> of strings: the value is hashed first, and a list or a dict
  has no hash, so the test raises \<^verbatim>\<open>TypeError\<close>; any other value that is not a string is
  equal to no member.
\<close>

definition in_str_set :: "json \<Rightarrow> string list \<Rightarrow> py_exc + bool" where
  "in_str_set v S =
     (case v of
        JStr s \<Rightarrow> Inr (s \<in> set S)
      | JList xs \<Rightarrow> Inl (TypeError, ''unhashable type: 'list'' @ [CHR 0x27])
      | JDict kvs \<Rightarrow> Inl (TypeError, ''unhashable type: 'dict'' @ [CHR 0x27])
      | _ \<Rightarrow> Inr False)"

text \<open>\<^verbatim>\<open>isinstance(v, int)\<close> holds of an \<^verbatim>\<open>int\<close> and of a \<^verbatim>\<open>bool\<close> (\<^verbatim>\<open>True\<close> is 1); the integer then.\<close>

fun py_int_value :: "json \<Rightarrow> int option" where
  "py_int_value (JInt n) = Some n"
| "py_int_value (JBool b) = Some (if b then 1 else 0)"
| "py_int_value v = None"

text \<open>\<^verbatim>\<open>table.get(key)\<close> for a table keyed by strings and a key that has a hash.\<close>

definition table_get :: "(string \<times> 'v) list \<Rightarrow> json \<Rightarrow> 'v option" where
  "table_get table key = (case key of JStr s \<Rightarrow> map_of table s | _ \<Rightarrow> None)"

definition invalid :: "string \<Rightarrow> py_exc + (bool \<times> string option \<times> string option)" where
  "invalid msg = Inr (False, Some msg, Some ''VALIDATION_ERROR'')"

text \<open>
  \<^verbatim>\<open>validate_input\<close>, one definition for each group of checks, in the order of the source;
  each returns at its first failing check. The result is the triple returned, or the
  exception raised.
\<close>

definition check_max_tokens ::
  "env \<Rightarrow> (string \<times> json) list \<Rightarrow> py_exc + (bool \<times> string option \<times> string option)" where
  "check_max_tokens env d =
     (case map_of d ''max_tokens'' of
        None \<Rightarrow> invalid ''Field 'max_tokens' is required''
      | Some max_tokens \<Rightarrow>
          (case py_int_value max_tokens of
             None \<Rightarrow> invalid ''Field 'max_tokens' must be a positive integer''
           | Some n \<Rightarrow>
               if n \<le> 0 then invalid ''Field 'max_tokens' must be a positive integer''
               else
                 (let length_v = dict_get d ''length'' JNull;
                      expected_tokens = table_get LENGTH_TO_TOKENS length_v
                  in if Some n \<noteq> expected_tokens then
                       invalid (''Field 'max_tokens' must be ''
                                @ (case expected_tokens of None \<Rightarrow> ''None'' | Some e \<Rightarrow> str_int e)
                                @ '' for length ''
                                @ [CHR 0x27] @ py_format env length_v @ [CHR 0x27])
                     else Inr (True, None, None))))"

definition check_hook_style ::
  "env \<Rightarrow> (string \<times> json) list \<Rightarrow> py_exc + (bool \<times> string option \<times> string option)" where
  "check_hook_style env d =
     (case map_of d ''hook_style'' of
        None \<Rightarrow> invalid ''Field 'hook_style' is required''
      | Some hook_style \<Rightarrow>
          (case in_str_set hook_style VALID_HOOK_STYLES of
             Inl e \<Rightarrow> Inl e
           | Inr member \<Rightarrow>
               if \<not> member then
                 invalid (''Field 'hook_style' must be one of '' @ py_set_str env VALID_HOOK_STYLES)
               else check_max_tokens env d))"

definition check_tone ::
  "env \<Rightarrow> (string \<times> json) list \<Rightarrow> py_exc + (bool \<times> string option \<times> string option)" where
  "check_tone env d =
     (case map_of d ''tone'' of
        None \<Rightarrow> invalid ''Field 'tone' is required''
      | Some tone \<Rightarrow>
          (case in_str_set tone VALID_TONES of
             Inl e \<Rightarrow> Inl e
           | Inr member \<Rightarrow>
               if \<not> member then
                 invalid (''Field 'tone' must be one of '' @ py_set_str env VALID_TONES)
               else check_hook_style env d))"

definition check_length ::
  "env \<Rightarrow> (string \<times> json) list \<Rightarrow> py_exc + (bool \<times> string option \<times> string option)" where
  "check_length env d =
     (case map_of d ''length'' of
        None \<Rightarrow> invalid ''Field 'length' is required''
      | Some length_v \<Rightarrow>
          (case in_str_set length_v VALID_LENGTHS of
             Inl e \<Rightarrow> Inl e
           | Inr member \<Rightarrow>
               if \<not> member then
                 invalid (''Field 'length' must be one of '' @ py_set_str env VALID_LENGTHS)
               else check_tone env d))"

definition validate_input ::
  "env \<Rightarrow> json \<Rightarrow> py_exc + (bool \<times> string option \<times> string option)" where
  "validate_input env input_data =
     (case input_data of
        JDict d \<Rightarrow>
          (case map_of d ''topic'' of
             None \<Rightarrow> invalid ''Field 'topic' is required and cannot be empty''
           | Some topic \<Rightarrow>
               if \<not> py_truthy topic then
                 invalid ''Field 'topic' is required and cannot be empty''
               else check_length env d)
      | _ \<Rightarrow> invalid ''Input must be a dictionary'')"

section \<open>Prompt builder\<close>

text \<open>
  The builders are modelled at the types of their annotations: \<^verbatim>\<open>str\<close> arguments are
  strings, \<^verbatim>\<open>Optional[str]\<close> is a \<^typ>\<open>string option\<close>, \<^verbatim>\<open>bool\<close> is \<^typ>\<open>bool\<close>.
  \<open>NL\<close> is the line feed of the triple-quoted templates.
\<close>

abbreviation NL :: string where
  "NL \<equiv> [CHR 0x0A]"

definition hook_instructions :: "string \<Rightarrow> (string \<times> string) list" where
  "hook_instructions topic =
     [(''question'', ''Start with a thought-provoking question about '' @ topic),
      (''shock'', ''Open with a surprising or shocking fact about '' @ topic),
      (''bold claim'', ''Make a bold, attention-grabbing statement about '' @ topic),
      (''story'', ''Begin with a brief, engaging story or anecdote related to '' @ topic)]"

definition build_hook_prompt :: "string \<Rightarrow> string \<Rightarrow> string \<Rightarrow> string" where
  "build_hook_prompt topic hook_style tone =
     dict_get (hook_instructions topic) hook_style
       (dict_get (hook_instructions topic) ''question'' [])"

definition tone_instructions :: "(string \<times> string) list" where
  "tone_instructions =
     [(''neutral'', ''Use a balanced, informative tone''),
      (''curious'', ''Maintain a sense of wonder and curiosity''),
      (''dramatic'', ''Use dramatic language and emphasis''),
      (''serious'', ''Keep a serious, authoritative tone''),
      (''funny'', ''Include humor and light-heartedness''),
      (''inspirational'', ''Be uplifting and motivational'')]"

text \<open>\<^verbatim>\<open>word_count or LENGTH_TO_WORDS.get(length, "30-50")\<close>: \<^verbatim>\<open>None\<close> and \<^verbatim>\<open>""\<close> are falsy.\<close>

definition word_range_of :: "string option \<Rightarrow> string \<Rightarrow> string" where
  "word_range_of word_count length_v =
     (case word_count of
        Some w \<Rightarrow> if w \<noteq> [] then w else dict_get LENGTH_TO_WORDS length_v ''30-50''
      | None \<Rightarrow> dict_get LENGTH_TO_WORDS length_v ''30-50'')"

definition build_main_prompt ::
  "string \<Rightarrow> string \<Rightarrow> string \<Rightarrow> string \<Rightarrow> string option \<Rightarrow> string \<Rightarrow> bool \<Rightarrow> string" where
  "build_main_prompt topic length_v tone hook_style word_count brand_name include_branding =
     (let word_range = word_range_of word_count length_v;
          hook_prompt = build_hook_prompt topic hook_style tone;
          branding_text =
            (if include_branding then
               NL @ ''- Naturally mention '' @ [CHR 0x27] @ brand_name @ [CHR 0x27]
                  @ '' once in the content if it fits organically''
             else [])
      in ''Generate a '' @ length_v @ '' video script about: '' @ topic @ NL
         @ NL
         @ ''Requirements:'' @ NL
         @ ''- '' @ hook_prompt @ NL
         @ ''- Maintain a '' @ dict_get tone_instructions tone ''neutral'' @ '' tone throughout'' @ NL
         @ ''- Target word count: '' @ word_range @ '' words'' @ NL
         @ ''- Format: Start with the hook, then continue with the main content'' @ NL
         @ ''- Make it engaging, clear, and suitable for video narration'' @ NL
         @ ''- Keep sentences concise and punchy'' @ NL
         @ branding_text @ NL
         @ NL
         @ ''Output only the script text, starting with the hook line, then the main content.'')"

definition voice_tone_instructions :: "(string \<times> string) list" where
  "voice_tone_instructions =
     [(''neutral'', ''conversational and clear''),
      (''curious'', ''wondering and engaging''),
      (''dramatic'', ''dramatic and expressive''),
      (''serious'', ''authoritative and clear''),
      (''funny'', ''light-hearted and natural''),
      (''inspirational'', ''uplifting and warm'')]"

definition build_voice_script_prompt ::
  "string \<Rightarrow> string \<Rightarrow> string option \<Rightarrow> string \<Rightarrow> bool \<Rightarrow> string" where
  "build_voice_script_prompt topic tone voice_script_style brand_name include_branding =
     (let style_instruction =
            (case voice_script_style of
               Some v \<Rightarrow> if v \<noteq> [] then v else ''narration''
             | None \<Rightarrow> ''narration'');
          branding_text =
            (if include_branding then
               NL @ ''- Naturally mention '' @ [CHR 0x27] @ brand_name @ [CHR 0x27]
                  @ '' once if it fits organically''
             else [])
      in ''Generate a voice narration script about: '' @ topic @ NL
         @ NL
         @ ''Requirements:'' @ NL
         @ ''- Optimized for voice/narration (more conversational and natural-sounding)'' @ NL
         @ ''- Use '' @ dict_get voice_tone_instructions tone ''conversational and clear''
         @ '' tone'' @ NL
         @ ''- Style: '' @ style_instruction @ NL
         @ ''- Include natural pauses indicated by punctuation (commas, periods)'' @ NL
         @ ''- Can be slightly longer and more detailed than a standard script'' @ NL
         @ ''- Make it flow naturally when spoken aloud'' @ NL
         @ branding_text @ NL
         @ NL
         @ ''Output only the voice script text.'')"

section \<open>Generation\<close>

text \<open>
  The \<^verbatim>\<open>except Exception as e\<close> clause shared by \<^verbatim>\<open>generate_script\<close> and
  \<^verbatim>\<open>generate_voice_script\<close>: whatever was raised inside the \<^verbatim>\<open>try\<close> leaves as a plain
  \<^verbatim>\<open>Exception\<close> with a new message.
\<close>

definition reraise :: "string \<Rightarrow> py_exc" where
  "reraise msg =
     (if str_in ''rate limit'' (py_lower msg) \<or> str_in ''429'' msg
      then (PlainException, ''Rate limit exceeded'')
      else (PlainException, ''Model error: '' @ msg))"

text \<open>
  \<^verbatim>\<open>generate_script\<close>. The list of completion calls made so far is passed in and returned
  with the call of this function added. The \<^verbatim>\<open>raise ValueError\<close> for a token overrun stands
  inside the \<^verbatim>\<open>try\<close> block, so the \<^verbatim>\<open>except Exception\<close> clause of the same function
  catches it.
\<close>

definition generate_script ::
  "env \<Rightarrow> string \<Rightarrow> string \<Rightarrow> string \<Rightarrow> string \<Rightarrow> int \<Rightarrow> string option \<Rightarrow> string option
     \<Rightarrow> string \<Rightarrow> bool \<Rightarrow> completion_call list
     \<Rightarrow> completion_call list \<times> (py_exc + string \<times> int)" where
  "generate_script env topic length_v tone hook_style max_tokens word_count model brand_name
       include_branding calls =
     (let model_name = (case model of
                          Some m \<Rightarrow> if m \<noteq> [] then m else MODEL_NAME env
                        | None \<Rightarrow> MODEL_NAME env);
          prompt = build_main_prompt topic length_v tone hook_style word_count brand_name
                     include_branding;
          call = \<lparr> system_message = ''You are an expert scriptwriter for short-form video content.'',
                   user_prompt = prompt,
                   call_model = model_name,
                   call_max_tokens = max_tokens \<rparr>
      in (calls @ [call],
          case complete env call of
            Inl msg \<Rightarrow> Inl (reraise msg)
          | Inr (content, tokens_used) \<Rightarrow>
              if tokens_used > max_tokens then
                Inl (reraise (''Generated '' @ str_int tokens_used @ '' tokens, exceeds limit of ''
                              @ str_int max_tokens))
              else Inr (strip content, tokens_used)))"

definition generate_voice_script ::
  "env \<Rightarrow> string \<Rightarrow> string \<Rightarrow> string option \<Rightarrow> string option \<Rightarrow> string \<Rightarrow> bool
     \<Rightarrow> completion_call list \<Rightarrow> completion_call list \<times> (py_exc + string \<times> int)" where
  "generate_voice_script env topic tone voice_script_style model brand_name include_branding calls =
     (let model_name = (case model of
                          Some m \<Rightarrow> if m \<noteq> [] then m else MODEL_NAME env
                        | None \<Rightarrow> MODEL_NAME env);
          prompt = build_voice_script_prompt topic tone voice_script_style brand_name
                     include_branding;
          call = \<lparr> system_message = ''You are an expert voice scriptwriter for narration.'',
                   user_prompt = prompt,
                   call_model = model_name,
                   call_max_tokens = 400 \<rparr>
      in (calls @ [call],
          case complete env call of
            Inl msg \<Rightarrow> Inl (reraise msg)
          | Inr (content, tokens_used) \<Rightarrow> Inr (strip content, tokens_used)))"

section \<open>Request handler\<close>

text \<open>\<^verbatim>\<open>validate_api_key\<close>. \<^verbatim>\<open>headers.get(k)\<close> is \<^verbatim>\<open>None\<close> for a missing key.\<close>

definition validate_api_key :: "env \<Rightarrow> (string \<times> json) list \<Rightarrow> bool" where
  "validate_api_key env headers =
     (if API_KEY env = [] then True
      else
        (let api_key = (if py_truthy (dict_get headers ''x-api-key'' JNull)
                        then dict_get headers ''x-api-key'' JNull
                        else dict_get headers ''X-Api-Key'' JNull)
         in api_key = JStr (API_KEY env)))"

text \<open>
  The request object of the web framework, as the handler reads it: \<^verbatim>\<open>request.json\<close>
  (\<open>None\<close> when reading it raises) and the items of \<^verbatim>\<open>request.headers\<close> (\<open>None\<close> when
  the attribute is missing or reading it raises).
\<close>

record request =
  req_json :: "json option"
  req_headers :: "(string \<times> string) list option"

text \<open>\<^verbatim>\<open>headers.update({k.lower(): v for k, v in items})\<close>; a later item wins.\<close>

definition update_lowered :: "(string \<times> json) list \<Rightarrow> (string \<times> json) list \<Rightarrow> (string \<times> json) list" where
  "update_lowered items headers = fold (\<lambda>(k, v) h. dict_set (py_lower k) v h) items headers"

text \<open>The headers the handler collects from the request and from the event body.\<close>

definition collect_headers :: "env \<Rightarrow> request \<Rightarrow> (string \<times> json) list \<Rightarrow> (string \<times> json) list" where
  "collect_headers env request event =
     (let headers = (case req_headers request of
                       None \<Rightarrow> []
                     | Some items \<Rightarrow> update_lowered (map (\<lambda>(k, v). (k, JStr v)) items) [])
      in case map_of event ''headers'' of
           None \<Rightarrow> headers
         | Some (JDict event_headers) \<Rightarrow> update_lowered event_headers headers
         | Some (JStr event_headers) \<Rightarrow>
             (case json_loads env event_headers of
                Some (JDict parsed_headers) \<Rightarrow> update_lowered parsed_headers headers
              | _ \<Rightarrow> headers)
         | Some _ \<Rightarrow> headers)"

definition error_response :: "string \<Rightarrow> string \<Rightarrow> (string \<times> json) list" where
  "error_response msg code = [(''error'', JStr msg), (''code'', JStr code)]"

text \<open>The two \<^verbatim>\<open>except\<close> clauses at the end of \<^verbatim>\<open>generate\<close>.\<close>

definition handle_exception :: "py_exc \<Rightarrow> (string \<times> json) list" where
  "handle_exception e =
     (case e of (cls, error_msg) \<Rightarrow>
        if cls = ValueError then error_response error_msg ''VALIDATION_ERROR''
        else if str_in ''rate limit'' (py_lower error_msg) \<or> str_in ''429'' error_msg
          then error_response error_msg ''RATE_LIMIT''
        else if str_in ''model'' (py_lower error_msg)
          then error_response error_msg ''MODEL_ERROR''
        else error_response error_msg ''INTERNAL_ERROR'')"

text \<open>
  Calling a value that is not a function raises \<^verbatim>\<open>TypeError\<close>. Inside \<^verbatim>\<open>generate\<close> the
  assignment \<^verbatim>\<open>generate_voice_script = input_data.get("generate_voice_script", False)\<close>
  makes the name local to \<^verbatim>\<open>generate\<close>, so the later \<^verbatim>\<open>generate_voice_script(topic=...)\<close>
  calls that value of the input and not the function of the module.
\<close>

definition call_object :: "json \<Rightarrow> py_exc + string \<times> int" where
  "call_object f = Inl (TypeError, [CHR 0x27] @ py_type_name f @ [CHR 0x27] @ '' object is not callable'')"

definition opt_str :: "string option \<Rightarrow> json" where
  "opt_str x = (case x of None \<Rightarrow> JNull | Some s \<Rightarrow> JStr s)"

text \<open>A JSON value as an \<^verbatim>\<open>Optional[str]\<close> argument under \<^verbatim>\<open>v or dflt\<close>: a falsy value counts
  as missing, any other value is seen through its \<^verbatim>\<open>str()\<close>.\<close>

definition opt_text :: "env \<Rightarrow> json \<Rightarrow> string option" where
  "opt_text env v = (if py_truthy v then Some (py_format env v) else None)"

text \<open>
  The part of \<^verbatim>\<open>generate\<close> after the main script has come back: hook and word count,
  the output dict, and the voice branch with its own \<^verbatim>\<open>try\<close> and \<^verbatim>\<open>except\<close>. \<open>d\<close> is
  the items of the input.
\<close>

definition assemble_output :: "(string \<times> json) list \<Rightarrow> string \<Rightarrow> int \<Rightarrow> (string \<times> json) list" where
  "assemble_output d script tokens_used =
     (let length_v = dict_get d ''length'' JNull;
          generate_voice_script = dict_get d ''generate_voice_script'' (JBool False)
      in case extract_hook script of
           None \<Rightarrow> handle_exception (IndexError, ''list index out of range'')
         | Some hook \<Rightarrow>
             (let output = [(''script'', JStr script),
                            (''hook'', JStr hook),
                            (''word_count'', JInt (count_words script)),
                            (''estimated_duration'', length_v),
                            (''tokens_used'', JInt tokens_used)]
              in if py_truthy generate_voice_script then
                   (case call_object generate_voice_script of
                      Inl e \<Rightarrow> dict_set ''voice_script_error'' (JStr (snd e)) output
                    | Inr (voice_script, voice_tokens) \<Rightarrow>
                        dict_set ''tokens_used'' (JInt (tokens_used + voice_tokens))
                          (dict_set ''voice_word_count'' (JInt (count_words voice_script))
                            (dict_set ''voice_script'' (JStr voice_script) output)))
                 else output))"

text \<open>
  The part of \<^verbatim>\<open>generate\<close> after validation has passed, for the items \<open>d\<close> of the input.
  The values taken from the input are handed to the typed functions above as their
  f-strings, \<^verbatim>\<open>or\<close> and \<^verbatim>\<open>if\<close> see them: text through \<open>py_format\<close>, optional text through
  \<open>opt_text\<close>, a flag through \<open>py_truthy\<close>. After validation \<open>max_tokens\<close> is an integer.
  An exception of \<^verbatim>\<open>generate_script\<close> goes to the \<^verbatim>\<open>except\<close> clauses of \<^verbatim>\<open>generate\<close>.
\<close>

definition run_generation ::
  "env \<Rightarrow> (string \<times> json) list \<Rightarrow> completion_call list \<times> (py_exc + (string \<times> json) list)" where
  "run_generation env d =
     (let topic = dict_get d ''topic'' JNull;
          length_v = dict_get d ''length'' JNull;
          tone = dict_get d ''tone'' JNull;
          hook_style = dict_get d ''hook_style'' JNull;
          max_tokens = dict_get d ''max_tokens'' JNull;
          word_count = dict_get d ''word_count'' JNull;
          model = dict_get d ''model'' JNull;
          brand_name = dict_get d ''brand_name'' (JStr ''Autopostai.Video'');
          include_branding = dict_get d ''include_branding'' (JBool True)
      in case generate_script env (py_format env topic) (py_format env length_v)
                (py_format env tone) (py_format env hook_style)
                (case py_int_value max_tokens of Some n \<Rightarrow> n | None \<Rightarrow> 0)
                (opt_text env word_count) (opt_text env model) (py_format env brand_name)
                (py_truthy include_branding) [] of
           (calls, Inl e) \<Rightarrow> (calls, Inr (handle_exception e))
         | (calls, Inr (script, tokens_used)) \<Rightarrow>
             (calls, Inr (assemble_output d script tokens_used)))"

text \<open>
  \<^verbatim>\<open>generate\<close>: the completion calls made, and the response returned or the exception
  that leaves the handler. An event that is not a dict has no \<^verbatim>\<open>get\<close>; the
  \<^verbatim>\<open>AttributeError\<close> is caught by the last \<^verbatim>\<open>except\<close> clause, which reads \<open>request_id\<close>
  before it was ever assigned. The branch for a validated input that is not a dict is
  never taken, since \<open>validate_input\<close> rejects such an input. Logging is left out.
\<close>

definition generate ::
  "env \<Rightarrow> request \<Rightarrow> completion_call list \<times> (py_exc + (string \<times> json) list)" where
  "generate env request =
     (case (case req_json request of None \<Rightarrow> JDict [] | Some e \<Rightarrow> e) of
        JDict event \<Rightarrow>
          if \<not> validate_api_key env (collect_headers env request event) then
            ([], Inr (error_response ''Invalid API key'' ''AUTH_ERROR''))
          else
            (let input_data = dict_get event ''input'' (JDict [])
             in if \<not> py_truthy input_data then
                  ([], Inr (error_response ''Missing 'input' field'' ''VALIDATION_ERROR''))
                else
                  (case validate_input env input_data of
                     Inl e \<Rightarrow> ([], Inr (handle_exception e))
                   | Inr (is_valid, error_msg, error_code) \<Rightarrow>
                       if \<not> is_valid then
                         ([], Inr [(''error'', opt_str error_msg), (''code'', opt_str error_code)])
                       else
                         (case input_data of
                            JDict d \<Rightarrow> run_generation env d
                          | _ \<Rightarrow> ([], Inr (handle_exception (TypeError, []))))))
      | _ \<Rightarrow>
          ([], Inl (UnboundLocalError,
                    ''local variable 'request_id' referenced before assignment'')))"

section \<open>Notions used to state the properties\<close>

text \<open>
  The number of maximal runs of non-whitespace characters of a text, counted by the
  positions where such a run starts: a character that is not whitespace and is the first
  of the text or follows a whitespace character.
\<close>

definition maximal_runs :: "string \<Rightarrow> nat" where
  "maximal_runs t =
     length (filter (\<lambda>i. \<not> py_isspace (t ! i) \<and> (i = 0 \<or> py_isspace (t ! (i - 1))))
               [0..<length t])"

text \<open>The same count by one pass over the text; \<open>prev\<close> tells whether a run may start here.\<close>

fun run_starts_from :: "bool \<Rightarrow> string \<Rightarrow> nat" where
  "run_starts_from prev [] = 0"
| "run_starts_from prev (c # cs) =
     (if \<not> py_isspace c \<and> prev then 1 else 0) + run_starts_from (py_isspace c) cs"

text \<open>The canonical token budget of a length category, as the specification lists it.\<close>

definition canonical_tokens :: "string \<Rightarrow> int" where
  "canonical_tokens L =
     (if L = ''20s'' then 100 else if L = ''30s'' then 150 else if L = ''45s'' then 225 else 300)"

text \<open>
  An example environment (with a given completion client and shared secret), the example
  input of the specification's first scenario with a given \<open>max_tokens\<close>, and a request
  that carries an input and no headers.
\<close>

definition example_env :: "(completion_call \<Rightarrow> string + (string \<times> int)) \<Rightarrow> string \<Rightarrow> env" where
  "example_env client secret =
     \<lparr> MODEL_NAME = ''llama-3-8b'', API_KEY = secret,
       py_set_str = (\<lambda>S. []), py_obj_str = (\<lambda>v. []), json_loads = (\<lambda>s. None),
       complete = client \<rparr>"

definition example_input :: "int \<Rightarrow> (string \<times> json) list" where
  "example_input n =
     [(''topic'', JStr ''cats''), (''length'', JStr ''30s''), (''tone'', JStr ''funny''),
      (''hook_style'', JStr ''question''), (''max_tokens'', JInt n)]"

definition example_request :: "(string \<times> json) list \<Rightarrow> request" where
  "example_request d = \<lparr> req_json = Some (JDict [(''input'', JDict d)]), req_headers = Some [] \<rparr>"

text \<open>
  The instruction fragment of a hook style: the text of the style's instruction in
  \<^verbatim>\<open>build_hook_prompt\<close> without the topic. \<open>count_occ p s\<close> is the number of positions
  of \<open>s\<close> at which \<open>p\<close> occurs. A text is free of fragments when none of the four
  fragments occurs in it.
\<close>

definition hook_fragment :: "string \<Rightarrow> string" where
  "hook_fragment hook_style =
     (if hook_style = ''question'' then ''Start with a thought-provoking question about''
      else if hook_style = ''shock'' then ''Open with a surprising or shocking fact about''
      else if hook_style = ''bold claim'' then ''Make a bold, attention-grabbing statement about''
      else ''Begin with a brief, engaging story or anecdote related to'')"

fun count_occ :: "string \<Rightarrow> string \<Rightarrow> nat" where
  "count_occ p [] = (if p = [] then 1 else 0)"
| "count_occ p (c # cs) = (if prefix p (c # cs) then 1 else 0) + count_occ p cs"

definition fragment_free :: "string \<Rightarrow> bool" where
  "fragment_free u = (\<forall>s \<in> set VALID_HOOK_STYLES. \<not> str_in (hook_fragment s) u)"

text \<open>
  Three tests on known text, for the proof that a fragment occurs nowhere else:
  \<open>agrees p x\<close>, the two strings are equal as far as both go; \<open>no_start p x\<close>, no
  occurrence of \<open>p\<close> can start inside \<open>x\<close>, whatever follows \<open>x\<close>; \<open>may_overlap q x\<close>,
  some non-empty end of \<open>q\<close> agrees with \<open>x\<close>. \<open>main_segments\<close> are the fixed pieces of
  the main template, \<open>after_text_segments\<close> those that follow a text of the caller.
\<close>

fun agrees :: "string \<Rightarrow> string \<Rightarrow> bool" where
  "agrees [] x = True"
| "agrees (a # p) [] = True"
| "agrees (a # p) (b # x) = (a = b \<and> agrees p x)"

fun no_start :: "string \<Rightarrow> string \<Rightarrow> bool" where
  "no_start p [] = True"
| "no_start p (c # x) = (\<not> agrees p (c # x) \<and> no_start p x)"

fun may_overlap :: "string \<Rightarrow> string \<Rightarrow> bool" where
  "may_overlap [] x = False"
| "may_overlap (c # q) x = (agrees (c # q) x \<or> may_overlap q x)"

definition main_segments :: "string list" where
  "main_segments =
     [''Generate a '', '' video script about: '', NL, ''Requirements:'', ''- '', '' '',
      ''- Maintain a '', '' tone throughout'', ''- Target word count: '', '' words'',
      ''- Format: Start with the hook, then continue with the main content'',
      ''- Make it engaging, clear, and suitable for video narration'',
      ''- Keep sentences concise and punchy'',
      ''- Naturally mention '', [CHR 0x27], '' once in the content if it fits organically'',
      ''Output only the script text, starting with the hook line, then the main content.'']"

definition after_text_segments :: "string list" where
  "after_text_segments = ['' video script about: '', NL, '' words'', [CHR 0x27]]"

section \<open>Word count\<close>

lemma rs_skip_space:
  "\<forall>x\<in>set ws. py_isspace x \<Longrightarrow> run_starts_from True (ws @ r) = run_starts_from True r"
  by (induction ws) auto

lemma rs_skip_nonspace:
  "run_starts_from False cs = run_starts_from False (dropWhile (\<lambda>x. \<not> py_isspace x) cs)"
  by (induction cs) auto

lemma rs_flag:
  "r = [] \<or> py_isspace (hd r) \<Longrightarrow> run_starts_from False r = run_starts_from True r"
  by (cases r) auto

lemma length_split_ws: "length (split_ws s) = run_starts_from True s"
proof (induction s rule: split_ws.induct)
  case (1 s)
  show ?case
  proof (cases "dropWhile py_isspace s")
    case Nil
    then have "\<forall>x\<in>set s. py_isspace x" by (simp add: dropWhile_eq_Nil_conv)
    then have "run_starts_from True (s @ []) = run_starts_from True []" by (rule rs_skip_space)
    moreover have "split_ws s = []" by (subst split_ws.simps) (simp only: Nil list.case)
    ultimately show ?thesis by simp
  next
    case (Cons c cs)
    let ?r = "dropWhile (\<lambda>x. \<not> py_isspace x) (c # cs)"
    have nsp: "\<not> py_isspace c"
      using Cons by (metis hd_dropWhile list.sel(1) list.distinct(1))
    have s: "s = takeWhile py_isspace s @ c # cs"
      using Cons takeWhile_dropWhile_id [of py_isspace s] by simp
    have "run_starts_from True s = run_starts_from True (c # cs)"
      by (subst s, rule rs_skip_space) (auto dest: set_takeWhileD)
    also have "\<dots> = 1 + run_starts_from False cs" using nsp by simp
    also have "run_starts_from False cs = run_starts_from False ?r"
      using nsp rs_skip_nonspace [of cs] by simp
    also have "\<dots> = run_starts_from True ?r"
    proof (rule rs_flag)
      show "?r = [] \<or> py_isspace (hd ?r)"
        using hd_dropWhile [of "\<lambda>x. \<not> py_isspace x" "c # cs"] by blast
    qed
    also have "\<dots> = length (split_ws ?r)" using "1.IH" [OF Cons] by simp
    finally have "run_starts_from True s = 1 + length (split_ws ?r)" .
    moreover have "split_ws s = takeWhile (\<lambda>x. \<not> py_isspace x) (c # cs) # split_ws ?r"
      by (subst split_ws.simps) (simp only: Cons list.case)
    ultimately show ?thesis by simp
  qed
qed

lemma rs_index:
  "run_starts_from prev s =
     length (filter (\<lambda>i. \<not> py_isspace (s ! i) \<and> (if i = 0 then prev else py_isspace (s ! (i - 1))))
               [0..<length s])"
proof (induction s arbitrary: prev)
  case Nil
  then show ?case by simp
next
  case (Cons c cs)
  have upt: "[0..<length (c # cs)] = 0 # map Suc [0..<length cs]"
    by (simp add: upt_conv_Cons map_Suc_upt del: upt_Suc)
  have shift: "filter (\<lambda>i. \<not> py_isspace ((c # cs) ! i) \<and> (if i = 0 then prev else py_isspace ((c # cs) ! (i - 1))))
           (map Suc [0..<length cs])
       = map Suc (filter (\<lambda>i. \<not> py_isspace (cs ! i) \<and> (if i = 0 then py_isspace c else py_isspace (cs ! (i - 1))))
           [0..<length cs])"
    unfolding filter_map
    by (rule arg_cong [where f = "map Suc"], rule filter_cong) (auto simp: nth_Cons')
  show ?case
    unfolding upt by (simp add: shift Cons.IH del: upt_Suc)
qed

text \<open>
  Claim C8. For every text \<open>t\<close>, \<open>count_words t\<close> is the number of maximal runs of
  non-whitespace characters of \<open>t\<close>; the empty text has 0 words and \<open>a b  c\<close>, with two
  spaces before \<open>c\<close>, has 3.
\<close>

theorem count_words_maximal_runs:
  "count_words t = int (maximal_runs t)
   \<and> count_words '''' = 0
   \<and> count_words ''a b  c'' = 3"
proof -
  have "(\<lambda>i. \<not> py_isspace (t ! i) \<and> (if i = 0 then True else py_isspace (t ! (i - 1))))
      = (\<lambda>i. \<not> py_isspace (t ! i) \<and> (i = 0 \<or> py_isspace (t ! (i - 1))))"
    by auto
  then have "count_words t = int (maximal_runs t)"
    by (simp add: count_words_def maximal_runs_def length_split_ws rs_index)
  moreover have "count_words '''' = 0"
    by (simp add: count_words_def split_ws.simps)
  moreover have "count_words ''a b  c'' = 3"
    by (simp add: count_words_def split_ws.simps py_isspace_def)
  ultimately show ?thesis by simp
qed

section \<open>Hook extraction\<close>

lemma split_on_Cons: "\<exists>w ws. split_on d s = w # ws"
  by (induction s) (auto split: list.splits)

lemma extract_hook_total: "\<exists>h. extract_hook s = Some h"
  using split_on_Cons [of "CHR 0x0A" s] split_on_Cons [of "CHR ''.''" s]
  by (auto simp: extract_hook_def Let_def)

text \<open>
  What \<open>extract_hook\<close> returns: the first line that has text, stripped, when there is
  one, and a single period otherwise; never the empty string.
\<close>

lemma extract_hook_never_empty: "extract_hook s \<noteq> Some []"
proof -
  obtain l0 ls where l: "split_on (CHR 0x0A) s = l0 # ls"
    using split_on_Cons by blast
  obtain s0 ss where d: "split_on CHR ''.'' s = s0 # ss"
    using split_on_Cons by blast
  show ?thesis
    by (simp add: extract_hook_def l d Let_def del: first_stripped.simps)
qed

lemma extract_hook_first_line:
  assumes "first_stripped [] (split_on (CHR 0x0A) s) \<noteq> []"
  shows "extract_hook s = Some (first_stripped [] (split_on (CHR 0x0A) s))"
proof -
  obtain l0 ls where l: "split_on (CHR 0x0A) s = l0 # ls"
    using split_on_Cons by blast
  show ?thesis
    using assms by (auto simp: extract_hook_def l Let_def)
qed

lemma strip_Nil_iff: "strip l = [] \<longleftrightarrow> (\<forall>c\<in>set l. py_isspace c)"
proof
  assume "strip l = []"
  then have "dropWhile py_isspace (rev (dropWhile py_isspace l)) = []"
    by (simp add: strip_def)
  then have "\<forall>c\<in>set (dropWhile py_isspace l). py_isspace c"
    by (simp add: dropWhile_eq_Nil_conv)
  then have "dropWhile py_isspace l = []"
  proof (cases "dropWhile py_isspace l")
    case Nil
    then show ?thesis .
  next
    case (Cons x xs)
    then have "\<not> py_isspace x" using hd_dropWhile [of py_isspace l] by simp
    moreover assume "\<forall>c\<in>set (dropWhile py_isspace l). py_isspace c"
    ultimately show ?thesis using Cons by simp
  qed
  then show "\<forall>c\<in>set l. py_isspace c" by (simp add: dropWhile_eq_Nil_conv)
next
  assume "\<forall>c\<in>set l. py_isspace c"
  then show "strip l = []"
    by (auto simp: strip_def dropWhile_eq_Nil_conv dest: set_dropWhileD)
qed

lemma first_stripped_Nil: "first_stripped [] ls = [] \<Longrightarrow> \<forall>l\<in>set ls. strip l = []"
  by (induction ls) (auto split: if_splits)

lemma split_on_all:
  assumes "\<forall>l\<in>set (split_on d s). \<forall>c\<in>set l. P c" and "P d"
  shows "\<forall>c\<in>set s. P c"
  using assms(1)
proof (induction s)
  case Nil
  show ?case by simp
next
  case (Cons a s)
  obtain w ws where w: "split_on d s = w # ws" using split_on_Cons by blast
  show ?case
  proof (cases "a = d")
    case True
    then have e: "split_on d (a # s) = [] # w # ws" by (simp add: w)
    have "\<forall>l\<in>set (split_on d s). \<forall>c\<in>set l. P c"
      using Cons.prems unfolding e w by simp
    then have "\<forall>c\<in>set s. P c" by (rule Cons.IH)
    then show ?thesis using True assms(2) by simp
  next
    case False
    then have e: "split_on d (a # s) = (a # w) # ws" by (simp add: w)
    have pa: "P a" and "\<forall>l\<in>set (split_on d s). \<forall>c\<in>set l. P c"
      using Cons.prems unfolding e w by simp_all
    then have "\<forall>c\<in>set s. P c" by (intro Cons.IH)
    then show ?thesis using pa by simp
  qed
qed

lemma split_on_hd_subset: "split_on d s = w # ws \<Longrightarrow> set w \<subseteq> set s"
proof (induction s arbitrary: w ws)
  case Nil
  then show ?case by simp
next
  case (Cons a s)
  obtain v vs where v: "split_on d s = v # vs" using split_on_Cons by blast
  show ?case using Cons.prems Cons.IH [OF v] v by (auto split: if_splits)
qed

lemma extract_hook_blank:
  assumes "first_stripped [] (split_on (CHR 0x0A) s) = []"
  shows "extract_hook s = Some ''.''"
proof -
  obtain l0 ls where l: "split_on (CHR 0x0A) s = l0 # ls"
    using split_on_Cons by blast
  obtain s0 ss where d: "split_on CHR ''.'' s = s0 # ss"
    using split_on_Cons by blast
  have "\<forall>l\<in>set (split_on (CHR 0x0A) s). \<forall>c\<in>set l. py_isspace c"
    using first_stripped_Nil [OF assms] by (simp add: strip_Nil_iff)
  moreover have "py_isspace (CHR 0x0A)" by (simp add: py_isspace_def)
  ultimately have sp: "\<forall>c\<in>set s. py_isspace c" by (rule split_on_all)
  then have "\<forall>c\<in>set s0. py_isspace c"
    using split_on_hd_subset [OF d] by blast
  then have s0: "strip s0 = []" by (simp add: strip_Nil_iff)
  have l0: "strip l0 = []"
    using assms l by (auto split: if_splits)
  show ?thesis
    using assms by (simp add: extract_hook_def l d s0 l0 Let_def del: first_stripped.simps)
qed

text \<open>
  Claim C4. The claim says that \<open>extract_hook\<close> of the empty string is the empty string.
  The code returns a single period: when no line has text, \<^verbatim>\<open>sentences[0].strip() + '.'\<close>
  is never empty, so the fallback \<^verbatim>\<open>script[:100]\<close> is never reached.
\<close>

theorem extract_hook_empty_is_period: "extract_hook [] = Some ''.''"
  by (simp add: extract_hook_def strip_def)

section \<open>Validation\<close>

lemma table_canonical:
  "L \<in> set VALID_LENGTHS \<Longrightarrow> map_of LENGTH_TO_TOKENS L = Some (canonical_tokens L)"
  by (auto simp: VALID_LENGTHS_def LENGTH_TO_TOKENS_def canonical_tokens_def)

lemma validate_input_reduce:
  assumes "map_of d ''topic'' = Some topic" "py_truthy topic"
    and "map_of d ''length'' = Some (JStr L)" "L \<in> set VALID_LENGTHS"
    and "map_of d ''tone'' = Some (JStr T)" "T \<in> set VALID_TONES"
    and "map_of d ''hook_style'' = Some (JStr H)" "H \<in> set VALID_HOOK_STYLES"
  shows "validate_input env (JDict d) = check_max_tokens env d"
  using assms
  by (simp add: validate_input_def check_length_def check_tone_def check_hook_style_def
      in_str_set_def)

lemma check_max_tokens_cases:
  assumes "map_of d ''length'' = Some (JStr L)" "L \<in> set VALID_LENGTHS"
  shows "check_max_tokens env d =
     (case map_of d ''max_tokens'' of
        None \<Rightarrow> invalid ''Field 'max_tokens' is required''
      | Some v \<Rightarrow>
         (case py_int_value v of
            None \<Rightarrow> invalid ''Field 'max_tokens' must be a positive integer''
          | Some n \<Rightarrow>
              if n \<le> 0 then invalid ''Field 'max_tokens' must be a positive integer''
              else if n = canonical_tokens L then Inr (True, None, None)
              else invalid (''Field 'max_tokens' must be '' @ str_int (canonical_tokens L)
                     @ '' for length '' @ [CHR 0x27] @ L @ [CHR 0x27])))"
  using assms table_canonical [OF assms(2)]
  by (auto simp: check_max_tokens_def dict_get_def table_get_def py_format_def Let_def
      split: option.splits)

lemma example_input_valid:
  "validate_input env (JDict (example_input 150 @ extra)) = Inr (True, None, None)"
  by (simp add: validate_input_def check_length_def check_tone_def check_hook_style_def
      check_max_tokens_def in_str_set_def example_input_def VALID_LENGTHS_def VALID_TONES_def
      VALID_HOOK_STYLES_def LENGTH_TO_TOKENS_def dict_get_def table_get_def)

lemma str_int_150: "str_int 150 = ''150''"
  by (simp add: str_int_def str_nat.simps)

text \<open>
  Claim C1. For a request map whose topic, length \<open>L\<close>, tone and hook style are valid,
  \<open>validate_input\<close> accepts if and only if \<open>max_tokens\<close> is the integer of the canonical
  table for \<open>L\<close> (20s: 100, 30s: 150, 45s: 225, 60s: 300); any other positive integer is
  rejected with code \<open>VALIDATION_ERROR\<close> and a message that names the expected value.
\<close>

theorem validate_input_max_tokens:
  assumes "map_of d ''topic'' = Some topic" "py_truthy topic"
    and "map_of d ''length'' = Some (JStr L)" "L \<in> set VALID_LENGTHS"
    and "map_of d ''tone'' = Some (JStr T)" "T \<in> set VALID_TONES"
    and "map_of d ''hook_style'' = Some (JStr H)" "H \<in> set VALID_HOOK_STYLES"
  shows "(validate_input env (JDict d) = Inr (True, None, None)
            \<longleftrightarrow> map_of d ''max_tokens'' = Some (JInt (canonical_tokens L)))
       \<and> (\<forall>n. map_of d ''max_tokens'' = Some (JInt n) \<and> 0 < n \<and> n \<noteq> canonical_tokens L
             \<longrightarrow> validate_input env (JDict d) =
                   Inr (False,
                        Some (''Field 'max_tokens' must be '' @ str_int (canonical_tokens L)
                              @ '' for length '' @ [CHR 0x27] @ L @ [CHR 0x27]),
                        Some ''VALIDATION_ERROR''))"
proof -
  have red: "validate_input env (JDict d) = check_max_tokens env d"
    using assms by (rule validate_input_reduce)
  have pos: "0 < canonical_tokens L" "canonical_tokens L \<noteq> 1"
    by (simp_all add: canonical_tokens_def)
  have acc: "check_max_tokens env d = Inr (True, None, None)
             \<longleftrightarrow> map_of d ''max_tokens'' = Some (JInt (canonical_tokens L))"
  proof (cases "map_of d ''max_tokens''")
    case None
    then show ?thesis
      by (simp add: check_max_tokens_cases [OF assms(3,4)] invalid_def)
  next
    case (Some v)
    then show ?thesis
      using pos
      by (cases v) (auto simp: check_max_tokens_cases [OF assms(3,4)] invalid_def)
  qed
  have rej: "check_max_tokens env d =
       Inr (False, Some (''Field 'max_tokens' must be '' @ str_int (canonical_tokens L)
                              @ '' for length '' @ [CHR 0x27] @ L @ [CHR 0x27]),
                        Some ''VALIDATION_ERROR'')"
    if "map_of d ''max_tokens'' = Some (JInt n)" "0 < n" "n \<noteq> canonical_tokens L" for n
    using that by (simp add: check_max_tokens_cases [OF assms(3,4)] invalid_def)
  show ?thesis
    unfolding red using acc rej by blast
qed

theorem validate_input_max_tokens_witness:
  "validate_input (example_env (\<lambda>c. Inl []) []) (JDict (example_input 150)) = Inr (True, None, None)
   \<and> validate_input (example_env (\<lambda>c. Inl []) []) (JDict (example_input 100)) =
       Inr (False, Some (''Field 'max_tokens' must be 150 for length '30s'' @ [CHR 0x27]),
            Some ''VALIDATION_ERROR'')"
proof -
  have t: "map_of (example_input n) ''topic'' = Some (JStr ''cats'')"
    and l: "map_of (example_input n) ''length'' = Some (JStr ''30s'')"
    and o: "map_of (example_input n) ''tone'' = Some (JStr ''funny'')"
    and k: "map_of (example_input n) ''hook_style'' = Some (JStr ''question'')"
    and m: "map_of (example_input n) ''max_tokens'' = Some (JInt n)" for n
    by (simp_all add: example_input_def)
  have v: "py_truthy (JStr ''cats'')" "''30s'' \<in> set VALID_LENGTHS"
    "''funny'' \<in> set VALID_TONES" "''question'' \<in> set VALID_HOOK_STYLES"
    by (simp_all add: VALID_LENGTHS_def VALID_TONES_def VALID_HOOK_STYLES_def)
  have c: "canonical_tokens ''30s'' = 150" by (simp add: canonical_tokens_def)
  show ?thesis
    using validate_input_max_tokens [OF t [of 150] v(1) l [of 150] v(2) o [of 150] v(3)
        k [of 150] v(4), where env = "example_env (\<lambda>c. Inl []) []"]
      validate_input_max_tokens [OF t [of 100] v(1) l [of 100] v(2) o [of 100] v(3)
        k [of 100] v(4), where env = "example_env (\<lambda>c. Inl []) []"]
    by (simp add: m c str_int_150)
qed

text \<open>
  Claim C9. The claim says that \<open>validate_input\<close> never raises on a dictionary of
  JSON-compatible values. The code tests \<^verbatim>\<open>input_data["length"] not in VALID_LENGTHS\<close>
  without looking at the type first, and a list has no hash: for the input
  \<^verbatim>\<open>{"topic": "cats", "length": []}\<close> it raises \<^verbatim>\<open>TypeError\<close> and returns no triple.
\<close>

theorem validate_input_raises_on_list_length:
  "validate_input env (JDict [(''topic'', JStr ''cats''), (''length'', JList [])])
     = Inl (TypeError, ''unhashable type: 'list'' @ [CHR 0x27])"
  by (simp add: validate_input_def check_length_def in_str_set_def)

section \<open>Prompt construction\<close>

text \<open>
  Claim C10. A word-count override that is absent or the empty string (the two falsy
  values of an \<^verbatim>\<open>Optional[str]\<close>), or any falsy JSON value as the handler passes it
  on, gives the prompt of an absent override, which is the prompt for the word range of
  the per-length table; the empty text is not put in.
\<close>

theorem word_count_empty_falls_back:
  "word_count = None \<or> word_count = Some [] \<or> (\<exists>v. \<not> py_truthy v \<and> word_count = opt_text env v) \<Longrightarrow>
     build_main_prompt topic length_v tone hook_style word_count brand_name include_branding
       = build_main_prompt topic length_v tone hook_style None brand_name include_branding
   \<and> build_main_prompt topic length_v tone hook_style word_count brand_name include_branding
       = build_main_prompt topic length_v tone hook_style
           (Some (dict_get LENGTH_TO_WORDS length_v ''30-50'')) brand_name include_branding"
proof -
  have ne: "dict_get LENGTH_TO_WORDS length_v ''30-50'' \<noteq> []"
    by (simp add: dict_get_def LENGTH_TO_WORDS_def)
  assume "word_count = None \<or> word_count = Some [] \<or> (\<exists>v. \<not> py_truthy v \<and> word_count = opt_text env v)"
  then have "word_count = None \<or> word_count = Some []"
    by (auto simp: opt_text_def)
  then have "word_range_of word_count length_v = dict_get LENGTH_TO_WORDS length_v ''30-50''"
    by (auto simp: word_range_of_def)
  moreover have "word_range_of None length_v = dict_get LENGTH_TO_WORDS length_v ''30-50''"
    by (simp add: word_range_of_def)
  moreover have "word_range_of (Some (dict_get LENGTH_TO_WORDS length_v ''30-50'')) length_v
       = dict_get LENGTH_TO_WORDS length_v ''30-50''"
    using ne by (simp add: word_range_of_def)
  ultimately show ?thesis
    by (simp add: build_main_prompt_def)
qed

theorem word_count_empty_falls_back_witness:
  "build_main_prompt ''cats'' ''30s'' ''funny'' ''question'' (Some []) ''Autopostai.Video'' True
     = build_main_prompt ''cats'' ''30s'' ''funny'' ''question'' None ''Autopostai.Video'' True
   \<and> build_main_prompt ''cats'' ''30s'' ''funny'' ''question'' (Some []) ''Autopostai.Video'' True
     = build_main_prompt ''cats'' ''30s'' ''funny'' ''question'' (Some ''45-75'')
         ''Autopostai.Video'' True
   \<and> build_main_prompt ''cats'' ''30s'' ''funny'' ''question''
         (opt_text (example_env (\<lambda>c. Inl []) []) (JInt 0)) ''Autopostai.Video'' True
     = build_main_prompt ''cats'' ''30s'' ''funny'' ''question'' None ''Autopostai.Video'' True"
proof -
  let ?env = "example_env (\<lambda>c. Inl []) []"
  have tab: "dict_get LENGTH_TO_WORDS ''30s'' ''30-50'' = ''45-75''"
    by (simp add: dict_get_def LENGTH_TO_WORDS_def)
  have empty: "Some [] = None \<or> Some ([] :: string) = Some []
      \<or> (\<exists>v. \<not> py_truthy v \<and> Some [] = opt_text ?env v)"
    by simp
  have zero: "opt_text ?env (JInt 0) = None \<or> opt_text ?env (JInt 0) = Some []
      \<or> (\<exists>v. \<not> py_truthy v \<and> opt_text ?env (JInt 0) = opt_text ?env v)"
    by (simp add: opt_text_def)
  show ?thesis
    using word_count_empty_falls_back [OF empty, where topic = "''cats''" and length_v = "''30s''"
        and tone = "''funny''" and hook_style = "''question''"
        and brand_name = "''Autopostai.Video''" and include_branding = True]
      word_count_empty_falls_back [OF zero, where topic = "''cats''" and length_v = "''30s''"
        and tone = "''funny''" and hook_style = "''question''"
        and brand_name = "''Autopostai.Video''" and include_branding = True]
    unfolding tab by blast
qed

lemma prefix_agrees: "prefix p (x @ r) \<Longrightarrow> agrees p x"
  by (induction p x rule: agrees.induct) auto

lemma count_occ_fixed: "no_start p x \<Longrightarrow> count_occ p (x @ r) = count_occ p r"
  by (induction x) (auto dest: prefix_agrees [of _ "_ # _", simplified])

lemma suffix_may_overlap:
  "suffix us q \<Longrightarrow> us \<noteq> [] \<Longrightarrow> prefix us (x @ r) \<Longrightarrow> may_overlap q x"
  by (induction q) (auto simp: suffix_Cons dest: prefix_agrees)

lemma count_occ_user:
  assumes "\<not> str_in p u" "\<not> may_overlap (tl p) x"
  shows "count_occ p (u @ x @ r) = count_occ p (x @ r)"
  using assms(1)
proof (induction u)
  case Nil
  then show ?case by simp
next
  case (Cons c u)
  then have np: "\<not> prefix p (c # u)" and nu: "\<not> str_in p u" by simp_all
  have "\<not> prefix p ((c # u) @ x @ r)"
  proof
    assume "prefix p ((c # u) @ x @ r)"
    then have "prefix p (c # u) \<or> (\<exists>us. p = (c # u) @ us \<and> prefix us (x @ r))"
      unfolding prefix_append .
    then consider "prefix p (c # u)" | us where "p = (c # u) @ us" "prefix us (x @ r)"
      by blast
    then show False
    proof cases
      case 1
      with np show False by simp
    next
      case 2
      show False
      proof (cases "us = []")
        case True
        with 2 np show False by simp
      next
        case False
        have "suffix us (tl p)" using 2(1) by (simp add: suffix_def)
        then have "may_overlap (tl p) x" using False 2(2) by (rule suffix_may_overlap)
        with assms(2) show False by simp
      qed
    qed
  qed
  with Cons.IH [OF nu] show ?case by simp
qed

lemma count_occ_hit:
  assumes "no_start p (tl p)" "p \<noteq> []"
  shows "count_occ p (p @ r) = 1 + count_occ p r"
proof -
  obtain c q where p: "p = c # q" using assms(2) by (cases p) auto
  have "count_occ p (c # (q @ r)) = 1 + count_occ p (q @ r)"
    by (simp add: p)
  also have "count_occ p (q @ r) = count_occ p r"
    using assms(1) by (intro count_occ_fixed) (simp add: p)
  finally show ?thesis by (simp add: p)
qed

lemma styles_cases:
  "s \<in> set VALID_HOOK_STYLES \<Longrightarrow> s = ''question'' \<or> s = ''shock'' \<or> s = ''bold claim'' \<or> s = ''story''"
  by (simp add: VALID_HOOK_STYLES_def)

lemma no_start_segments_all:
  assumes "s \<in> set VALID_HOOK_STYLES"
  shows "list_all (no_start (hook_fragment s)) main_segments"
  using styles_cases [OF assms]
  by (elim disjE) (simp_all add: hook_fragment_def main_segments_def)

lemma no_start_segments:
  assumes "s \<in> set VALID_HOOK_STYLES" "x \<in> set main_segments"
  shows "no_start (hook_fragment s) x"
  using no_start_segments_all [OF assms(1)] assms(2) by (simp add: list_all_iff)

lemma no_overlap_segments_all:
  assumes "s \<in> set VALID_HOOK_STYLES"
  shows "list_all (\<lambda>x. \<not> may_overlap (tl (hook_fragment s)) x) after_text_segments"
  using styles_cases [OF assms]
  by (elim disjE) (simp_all add: hook_fragment_def after_text_segments_def)

lemma no_overlap_segments:
  assumes "s \<in> set VALID_HOOK_STYLES" "x \<in> set after_text_segments"
  shows "\<not> may_overlap (tl (hook_fragment s)) x"
  using no_overlap_segments_all [OF assms(1)] assms(2) by (simp add: list_all_iff)

lemma no_start_tone:
  assumes "s \<in> set VALID_HOOK_STYLES"
  shows "no_start (hook_fragment s) (dict_get tone_instructions tone ''neutral'')"
proof -
  have "dict_get tone_instructions tone ''neutral'' \<in>
     {''Use a balanced, informative tone'', ''Maintain a sense of wonder and curiosity'',
      ''Use dramatic language and emphasis'', ''Keep a serious, authoritative tone'',
      ''Include humor and light-heartedness'', ''Be uplifting and motivational'', ''neutral''}"
    by (simp add: dict_get_def tone_instructions_def)
  then show ?thesis
    using styles_cases [OF assms]
    by (elim disjE insertE emptyE) (simp_all add: hook_fragment_def)
qed

lemma no_start_other:
  assumes "s \<in> set VALID_HOOK_STYLES" "h \<in> set VALID_HOOK_STYLES" "s \<noteq> h"
  shows "no_start (hook_fragment s) (hook_fragment h)"
  using styles_cases [OF assms(1)] styles_cases [OF assms(2)] assms(3)
  by (elim disjE) (simp_all add: hook_fragment_def)

lemma no_start_self:
  assumes "s \<in> set VALID_HOOK_STYLES"
  shows "no_start (hook_fragment s) (tl (hook_fragment s))"
  using styles_cases [OF assms]
  by (elim disjE) (simp_all add: hook_fragment_def)

lemma hook_fragment_nonempty: "hook_fragment s \<noteq> []"
  by (simp add: hook_fragment_def)

lemma build_hook_prompt_fragment:
  assumes "h \<in> set VALID_HOOK_STYLES"
  shows "build_hook_prompt topic h tone = hook_fragment h @ '' '' @ topic"
  using styles_cases [OF assms]
  by (elim disjE) (simp_all add: build_hook_prompt_def hook_instructions_def dict_get_def hook_fragment_def)

lemma fragment_freeD: "fragment_free u \<Longrightarrow> s \<in> set VALID_HOOK_STYLES \<Longrightarrow> \<not> str_in (hook_fragment s) u"
  by (simp add: fragment_free_def)

lemma word_range_free:
  assumes "case word_count of None \<Rightarrow> True | Some w \<Rightarrow> fragment_free w"
    and "s \<in> set VALID_HOOK_STYLES"
  shows "\<not> str_in (hook_fragment s) (word_range_of word_count length_v)"
proof -
  have tab: "\<not> str_in (hook_fragment s) (dict_get LENGTH_TO_WORDS length_v ''30-50'')"
  proof -
    have "dict_get LENGTH_TO_WORDS length_v ''30-50'' \<in> {''30-50'', ''45-75'', ''70-110'', ''90-150''}"
      by (simp add: dict_get_def LENGTH_TO_WORDS_def)
    then show ?thesis
      using styles_cases [OF assms(2)]
      by (elim disjE insertE emptyE) (simp_all add: hook_fragment_def)
  qed
  show ?thesis
  proof (cases word_count)
    case None
    with tab show ?thesis by (simp add: word_range_of_def)
  next
    case (Some w)
    with assms have "\<not> str_in (hook_fragment s) w" by (simp add: fragment_freeD)
    with Some tab show ?thesis by (simp add: word_range_of_def)
  qed
qed

lemma main_prompt_pieces:
  assumes "h \<in> set VALID_HOOK_STYLES"
  shows "build_main_prompt topic length_v tone h word_count brand_name include_branding =
     ''Generate a '' @ length_v @ '' video script about: '' @ topic @ NL
       @ NL
       @ ''Requirements:'' @ NL
       @ ''- '' @ hook_fragment h @ '' '' @ topic @ NL
       @ ''- Maintain a '' @ dict_get tone_instructions tone ''neutral'' @ '' tone throughout'' @ NL
       @ ''- Target word count: '' @ word_range_of word_count length_v @ '' words'' @ NL
       @ ''- Format: Start with the hook, then continue with the main content'' @ NL
       @ ''- Make it engaging, clear, and suitable for video narration'' @ NL
       @ ''- Keep sentences concise and punchy'' @ NL
       @ (if include_branding then
            NL @ ''- Naturally mention '' @ [CHR 0x27] @ brand_name @ [CHR 0x27]
               @ '' once in the content if it fits organically'' @ NL @ NL
               @ ''Output only the script text, starting with the hook line, then the main content.'' @ []
          else NL @ NL
               @ ''Output only the script text, starting with the hook line, then the main content.'' @ [])"
  unfolding build_main_prompt_def Let_def build_hook_prompt_fragment [OF assms]
  by (simp del: append_Cons)





text \<open>
  Claim C6, as amended. For each of the four hook styles, and for a topic, a length, a
  word-count override and a brand name that contain none of the four instruction
  fragments themselves, the main prompt contains the fragment of the chosen style exactly
  once and none of the other three. (The arguments are put into the prompt as they are,
  so a fragment inside one of them shows up in the prompt; see the counterexample.)
\<close>

theorem hook_fragment_once:
  assumes h: "hook_style \<in> set VALID_HOOK_STYLES"
    and free: "fragment_free topic" "fragment_free length_v" "fragment_free brand_name"
      "case word_count of None \<Rightarrow> True | Some w \<Rightarrow> fragment_free w"
  shows "\<forall>s \<in> set VALID_HOOK_STYLES.
           count_occ (hook_fragment s)
             (build_main_prompt topic length_v tone hook_style word_count brand_name include_branding)
           = (if s = hook_style then 1 else 0)"
proof
  fix s assume s: "s \<in> set VALID_HOOK_STYLES"
  note fixed = count_occ_fixed [OF no_start_segments [OF s]] count_occ_fixed [OF no_start_tone [OF s]]
  note user = count_occ_user [OF fragment_freeD [OF free(1) s] no_overlap_segments [OF s]]
    count_occ_user [OF fragment_freeD [OF free(2) s] no_overlap_segments [OF s]]
    count_occ_user [OF fragment_freeD [OF free(3) s] no_overlap_segments [OF s]]
    count_occ_user [OF word_range_free [OF free(4) s] no_overlap_segments [OF s]]
  have seg: "''Generate a '' \<in> set main_segments" "'' video script about: '' \<in> set main_segments"
    "NL \<in> set main_segments" "''Requirements:'' \<in> set main_segments" "''- '' \<in> set main_segments"
    "'' '' \<in> set main_segments" "''- Maintain a '' \<in> set main_segments"
    "'' tone throughout'' \<in> set main_segments" "''- Target word count: '' \<in> set main_segments"
    "'' words'' \<in> set main_segments"
    "''- Format: Start with the hook, then continue with the main content'' \<in> set main_segments"
    "''- Make it engaging, clear, and suitable for video narration'' \<in> set main_segments"
    "''- Keep sentences concise and punchy'' \<in> set main_segments"
    "''- Naturally mention '' \<in> set main_segments" "[CHR 0x27] \<in> set main_segments"
    "'' once in the content if it fits organically'' \<in> set main_segments"
    "''Output only the script text, starting with the hook line, then the main content.'' \<in> set main_segments"
    by (simp_all add: main_segments_def)
  have aft: "'' video script about: '' \<in> set after_text_segments" "NL \<in> set after_text_segments"
    "'' words'' \<in> set after_text_segments" "[CHR 0x27] \<in> set after_text_segments"
    by (simp_all add: after_text_segments_def)
  note steps = fixed(1) [OF seg(1)] fixed(1) [OF seg(2)] fixed(1) [OF seg(3)] fixed(1) [OF seg(4)]
    fixed(1) [OF seg(5)] fixed(1) [OF seg(6)] fixed(1) [OF seg(7)] fixed(1) [OF seg(8)]
    fixed(1) [OF seg(9)] fixed(1) [OF seg(10)] fixed(1) [OF seg(11)] fixed(1) [OF seg(12)]
    fixed(1) [OF seg(13)] fixed(1) [OF seg(14)] fixed(1) [OF seg(15)] fixed(1) [OF seg(16)]
    fixed(1) [OF seg(17)] fixed(2)
    user [OF aft(1)] user [OF aft(2)] user [OF aft(3)] user [OF aft(4)]
  show "count_occ (hook_fragment s)
             (build_main_prompt topic length_v tone hook_style word_count brand_name include_branding)
           = (if s = hook_style then 1 else 0)"
  proof (cases "s = hook_style")
    case True
    note hit = count_occ_hit [OF no_start_self [OF s] hook_fragment_nonempty [of s]]
    show ?thesis
      unfolding True [symmetric] main_prompt_pieces [OF s]
      by (cases include_branding) (simp_all only: steps hit if_True if_False count_occ.simps hook_fragment_nonempty refl)
  next
    case False
    note other = count_occ_fixed [OF no_start_other [OF s h False]]
    show ?thesis
      unfolding main_prompt_pieces [OF h]
      by (cases include_branding) (simp_all only: steps other if_True if_False count_occ.simps hook_fragment_nonempty False refl)
  qed
qed


theorem hook_fragment_once_witness:
  "count_occ (hook_fragment ''question'')
     (build_main_prompt ''cats'' ''30s'' ''funny'' ''question'' None ''Autopostai.Video'' True) = 1
   \<and> count_occ (hook_fragment ''shock'')
     (build_main_prompt ''cats'' ''30s'' ''funny'' ''question'' None ''Autopostai.Video'' True) = 0
   \<and> count_occ (hook_fragment ''bold claim'')
     (build_main_prompt ''cats'' ''30s'' ''funny'' ''question'' None ''Autopostai.Video'' True) = 0
   \<and> count_occ (hook_fragment ''story'')
     (build_main_prompt ''cats'' ''30s'' ''funny'' ''question'' None ''Autopostai.Video'' True) = 0"
proof -
  have h: "''question'' \<in> set VALID_HOOK_STYLES" by (simp add: VALID_HOOK_STYLES_def)
  have f: "fragment_free ''cats''" "fragment_free ''30s''" "fragment_free ''Autopostai.Video''"
    by (simp_all add: fragment_free_def VALID_HOOK_STYLES_def hook_fragment_def)
  have w: "case None of None \<Rightarrow> True | Some w \<Rightarrow> fragment_free w" by simp
  show ?thesis
    using hook_fragment_once [OF h f w, of "''funny''" True]
    by (simp add: VALID_HOOK_STYLES_def)
qed

text \<open>
  The claim as stated, for every topic, fails for a topic that quotes another style's
  instruction: the prompt for the style \<open>question\<close> then contains the fragment of the
  style \<open>shock\<close>, twice.
\<close>

theorem hook_fragment_in_topic_counterexample:
  "count_occ (hook_fragment ''question'')
     (build_main_prompt ''Open with a surprising or shocking fact about cats'' ''30s'' ''funny''
        ''question'' None ''Autopostai.Video'' True) = 1
   \<and> count_occ (hook_fragment ''shock'')
     (build_main_prompt ''Open with a surprising or shocking fact about cats'' ''30s'' ''funny''
        ''question'' None ''Autopostai.Video'' True) = 2"
  by code_simp

text \<open>
  Claim C7. For all other arguments there is a text \<open>pre\<close>, the same for every brand
  name, such that the prompt without branding is \<open>pre\<close> followed at once by the closing
  lines, with nothing at the place of the branding line, and the prompt with branding is
  the same with the branding line that names \<open>brand_name\<close> put in at that place; for the
  main prompt and for the voice prompt.
\<close>

theorem branding_line_only_when_enabled:
  "\<exists>pre_main pre_voice.
     (\<forall>brand_name.
        build_main_prompt topic length_v tone hook_style word_count brand_name False
          = pre_main @ NL @ NL
            @ ''Output only the script text, starting with the hook line, then the main content.''
      \<and> build_main_prompt topic length_v tone hook_style word_count brand_name True
          = pre_main
            @ (NL @ ''- Naturally mention '' @ [CHR 0x27] @ brand_name @ [CHR 0x27]
                  @ '' once in the content if it fits organically'')
            @ NL @ NL
            @ ''Output only the script text, starting with the hook line, then the main content.'')
   \<and> (\<forall>brand_name.
        build_voice_script_prompt topic tone voice_script_style brand_name False
          = pre_voice @ NL @ NL @ ''Output only the voice script text.''
      \<and> build_voice_script_prompt topic tone voice_script_style brand_name True
          = pre_voice
            @ (NL @ ''- Naturally mention '' @ [CHR 0x27] @ brand_name @ [CHR 0x27]
                  @ '' once if it fits organically'')
            @ NL @ NL @ ''Output only the voice script text.'')"
proof -
  define pre_main where "pre_main =
    ''Generate a '' @ length_v @ '' video script about: '' @ topic @ NL @ NL
    @ ''Requirements:'' @ NL
    @ ''- '' @ build_hook_prompt topic hook_style tone @ NL
    @ ''- Maintain a '' @ dict_get tone_instructions tone ''neutral'' @ '' tone throughout'' @ NL
    @ ''- Target word count: '' @ word_range_of word_count length_v @ '' words'' @ NL
    @ ''- Format: Start with the hook, then continue with the main content'' @ NL
    @ ''- Make it engaging, clear, and suitable for video narration'' @ NL
    @ ''- Keep sentences concise and punchy'' @ NL"
  define pre_voice where "pre_voice =
    ''Generate a voice narration script about: '' @ topic @ NL @ NL
    @ ''Requirements:'' @ NL
    @ ''- Optimized for voice/narration (more conversational and natural-sounding)'' @ NL
    @ ''- Use '' @ dict_get voice_tone_instructions tone ''conversational and clear''
    @ '' tone'' @ NL
    @ ''- Style: '' @ (case voice_script_style of
                         Some v \<Rightarrow> if v \<noteq> [] then v else ''narration''
                       | None \<Rightarrow> ''narration'') @ NL
    @ ''- Include natural pauses indicated by punctuation (commas, periods)'' @ NL
    @ ''- Can be slightly longer and more detailed than a standard script'' @ NL
    @ ''- Make it flow naturally when spoken aloud'' @ NL"
  have m: "build_main_prompt topic length_v tone hook_style word_count brand_name False
          = pre_main @ NL @ NL
            @ ''Output only the script text, starting with the hook line, then the main content.''
      \<and> build_main_prompt topic length_v tone hook_style word_count brand_name True
          = pre_main
            @ (NL @ ''- Naturally mention '' @ [CHR 0x27] @ brand_name @ [CHR 0x27]
                  @ '' once in the content if it fits organically'')
            @ NL @ NL
            @ ''Output only the script text, starting with the hook line, then the main content.''"
    for brand_name
    unfolding build_main_prompt_def pre_main_def Let_def by (simp del: append_Cons)
  have v: "build_voice_script_prompt topic tone voice_script_style brand_name False
          = pre_voice @ NL @ NL @ ''Output only the voice script text.''
      \<and> build_voice_script_prompt topic tone voice_script_style brand_name True
          = pre_voice
            @ (NL @ ''- Naturally mention '' @ [CHR 0x27] @ brand_name @ [CHR 0x27]
                  @ '' once if it fits organically'')
            @ NL @ NL @ ''Output only the voice script text.''"
    for brand_name
    unfolding build_voice_script_prompt_def pre_voice_def Let_def by (simp del: append_Cons)
  show ?thesis
    using m v by blast
qed

section \<open>The handler\<close>

lemma validate_api_key_reject:
  assumes "API_KEY env \<noteq> []"
    and "map_of headers ''x-api-key'' \<noteq> Some (JStr (API_KEY env))"
    and "map_of headers ''X-Api-Key'' \<noteq> Some (JStr (API_KEY env))"
  shows "\<not> validate_api_key env headers"
  using assms
  by (auto simp: validate_api_key_def dict_get_def Let_def split: option.splits if_splits)

text \<open>
  Claim C5. When a shared secret is configured and the headers the handler collects carry
  the secret neither under \<open>x-api-key\<close> nor under \<open>X-Api-Key\<close>, the handler returns the
  code \<open>AUTH_ERROR\<close> and has made no completion call; when no secret is configured,
  \<open>validate_api_key\<close> passes for every headers map.
\<close>

theorem auth_gate:
  "((case req_json request of None \<Rightarrow> JDict [] | Some e \<Rightarrow> e) = JDict event
      \<and> API_KEY env \<noteq> []
      \<and> map_of (collect_headers env request event) ''x-api-key'' \<noteq> Some (JStr (API_KEY env))
      \<and> map_of (collect_headers env request event) ''X-Api-Key'' \<noteq> Some (JStr (API_KEY env))
      \<longrightarrow> generate env request =
            ([], Inr [(''error'', JStr ''Invalid API key''), (''code'', JStr ''AUTH_ERROR'')]))
   \<and> (API_KEY env = [] \<longrightarrow> validate_api_key env headers)"
proof (intro conjI impI)
  assume a: "(case req_json request of None \<Rightarrow> JDict [] | Some e \<Rightarrow> e) = JDict event
      \<and> API_KEY env \<noteq> []
      \<and> map_of (collect_headers env request event) ''x-api-key'' \<noteq> Some (JStr (API_KEY env))
      \<and> map_of (collect_headers env request event) ''X-Api-Key'' \<noteq> Some (JStr (API_KEY env))"
  then have "\<not> validate_api_key env (collect_headers env request event)"
    by (intro validate_api_key_reject) simp_all
  with a show "generate env request =
      ([], Inr [(''error'', JStr ''Invalid API key''), (''code'', JStr ''AUTH_ERROR'')])"
    by (simp add: generate_def error_response_def)
next
  assume "API_KEY env = []"
  then show "validate_api_key env headers" by (simp add: validate_api_key_def)
qed

theorem auth_gate_witness:
  "generate (example_env (\<lambda>c. Inr (''Hello'', 10)) ''s3cret'') (example_request (example_input 150))
      = ([], Inr [(''error'', JStr ''Invalid API key''), (''code'', JStr ''AUTH_ERROR'')])
   \<and> validate_api_key (example_env (\<lambda>c. Inr (''Hello'', 10)) []) [(''x-api-key'', JStr ''anything'')]"
proof -
  let ?env = "example_env (\<lambda>c. Inr (''Hello'', 10)) ''s3cret''"
  let ?req = "example_request (example_input 150)"
  let ?event = "[(''input'', JDict (example_input 150))]"
  have h: "(case req_json ?req of None \<Rightarrow> JDict [] | Some e \<Rightarrow> e) = JDict ?event
      \<and> API_KEY ?env \<noteq> []
      \<and> map_of (collect_headers ?env ?req ?event) ''x-api-key'' \<noteq> Some (JStr (API_KEY ?env))
      \<and> map_of (collect_headers ?env ?req ?event) ''X-Api-Key'' \<noteq> Some (JStr (API_KEY ?env))"
    by (simp add: example_request_def example_env_def collect_headers_def update_lowered_def)
  have e: "API_KEY (example_env (\<lambda>c. Inr (''Hello'', 10)) []) = []"
    by (simp add: example_env_def)
  show ?thesis
    using auth_gate [of ?req ?event ?env]
      auth_gate [of _ _ "example_env (\<lambda>c. Inr (''Hello'', 10)) []"
        "[(''x-api-key'', JStr ''anything'')]"] h e
    by blast
qed

text \<open>
  A token overrun of the main call never ends in \<open>VALIDATION_ERROR\<close>: the response is
  an error with the code \<open>RATE_LIMIT\<close> or \<open>MODEL_ERROR\<close>.
\<close>

lemma str_in_prefix: "prefix p s \<Longrightarrow> str_in p s"
  by (cases s) auto

lemma handle_reraise:
  "handle_exception (reraise m) = error_response (snd (reraise m)) ''RATE_LIMIT''
   \<or> handle_exception (reraise m) = error_response (snd (reraise m)) ''MODEL_ERROR''"
proof (cases "str_in ''rate limit'' (py_lower m) \<or> str_in ''429'' m")
  case True
  then have "reraise m = (PlainException, ''Rate limit exceeded'')"
    by (simp add: reraise_def)
  then show ?thesis
    by (simp add: handle_exception_def py_lower_def py_lower_char_def)
next
  case False
  then have r: "reraise m = (PlainException, ''Model error: '' @ m)"
    by (simp add: reraise_def)
  have "prefix ''model'' (py_lower (''Model error: '' @ m))"
    by (simp add: py_lower_def py_lower_char_def)
  then have "str_in ''model'' (py_lower (''Model error: '' @ m))"
    by (rule str_in_prefix)
  then show ?thesis
    unfolding r by (simp add: handle_exception_def del: str_in.simps)
qed

lemma run_generation_overrun:
  assumes "fst (run_generation env d) = c # rest"
    and "complete env c = Inr (content, used)" "call_max_tokens c < used"
  shows "\<exists>msg. run_generation env d = ([c], Inr (error_response msg ''RATE_LIMIT''))
             \<or> run_generation env d = ([c], Inr (error_response msg ''MODEL_ERROR''))"
proof -
  let ?m = "''Generated '' @ str_int used @ '' tokens, exceeds limit of ''
              @ str_int (call_max_tokens c)"
  have "run_generation env d = ([c], Inr (handle_exception (reraise ?m)))"
    using assms
    by (auto simp: run_generation_def generate_script_def Let_def split: sum.splits prod.splits)
  then show ?thesis
    using handle_reraise [of ?m] by auto
qed

text \<open>
  Claim C2. The claim says that a main call whose token usage exceeds \<open>max_tokens\<close> ends
  in the code \<open>VALIDATION_ERROR\<close>. In the code the \<^verbatim>\<open>ValueError\<close> is raised inside the
  \<^verbatim>\<open>try\<close> of \<open>generate_script\<close> and leaves it as a plain \<^verbatim>\<open>Exception\<close> with the message
  \<open>Model error: ...\<close>, which the \<^verbatim>\<open>except ValueError\<close> clause of \<open>generate\<close> does not
  catch: for the valid example request and a client that reports 151 tokens the response
  has the code \<open>MODEL_ERROR\<close> (and no partial result).
\<close>

theorem token_overrun_reported_as_model_error:
  "generate (example_env (\<lambda>c. Inr (''Hello world'', 151)) []) (example_request (example_input 150))
     = ([\<lparr> system_message = ''You are an expert scriptwriter for short-form video content.'',
           user_prompt = build_main_prompt ''cats'' ''30s'' ''funny'' ''question'' None
                           ''Autopostai.Video'' True,
           call_model = ''llama-3-8b'',
           call_max_tokens = 150 \<rparr>],
        Inr [(''error'', JStr ''Model error: Generated 151 tokens, exceeds limit of 150''),
             (''code'', JStr ''MODEL_ERROR'')])"
proof -
  let ?env = "example_env (\<lambda>c. Inr (''Hello world'', 151)) []"
  have v: "validate_input ?env (JDict (example_input 150)) = Inr (True, None, None)"
    using example_input_valid [of ?env "[]"] by simp
  have s: "str_int 151 = ''151''" "str_int 150 = ''150''"
    by (simp_all add: str_int_def str_nat.simps)
  have r: "reraise ''Generated 151 tokens, exceeds limit of 150''
            = (PlainException, ''Model error: Generated 151 tokens, exceeds limit of 150'')"
    by (simp add: reraise_def py_lower_def py_lower_char_def)
  have h: "handle_exception (PlainException, ''Model error: Generated 151 tokens, exceeds limit of 150'')
            = [(''error'', JStr ''Model error: Generated 151 tokens, exceeds limit of 150''),
               (''code'', JStr ''MODEL_ERROR'')]"
    by (simp add: handle_exception_def error_response_def py_lower_def py_lower_char_def)
  have g: "run_generation ?env (example_input 150)
     = ([\<lparr> system_message = ''You are an expert scriptwriter for short-form video content.'',
           user_prompt = build_main_prompt ''cats'' ''30s'' ''funny'' ''question'' None
                           ''Autopostai.Video'' True,
           call_model = ''llama-3-8b'',
           call_max_tokens = 150 \<rparr>],
        Inr [(''error'', JStr ''Model error: Generated 151 tokens, exceeds limit of 150''),
             (''code'', JStr ''MODEL_ERROR'')])"
    by (simp add: run_generation_def generate_script_def example_input_def example_env_def
        dict_get_def py_format_def opt_text_def s r h)
  show ?thesis
    using v g
    by (simp add: generate_def example_request_def validate_api_key_def dict_get_def
        example_env_def example_input_def)
qed

lemma validate_input_nonempty: "validate_input env (JDict d) = Inr (True, x, y) \<Longrightarrow> d \<noteq> []"
  by (auto simp: validate_input_def invalid_def)

lemma run_generation_ok:
  assumes "fst (run_generation env d) = c # rest"
    and "complete env c = Inr (content, used)" "used \<le> call_max_tokens c"
  shows "run_generation env d = ([c], Inr (assemble_output d (strip content) used))"
  using assms
  by (auto simp: run_generation_def generate_script_def Let_def split: sum.splits prod.splits)

lemma assemble_output_voice:
  assumes "map_of d ''generate_voice_script'' = Some flag" "py_truthy flag"
    and "extract_hook script = Some hook"
  shows "assemble_output d script used =
           [(''script'', JStr script),
            (''hook'', JStr hook),
            (''word_count'', JInt (count_words script)),
            (''estimated_duration'', dict_get d ''length'' JNull),
            (''tokens_used'', JInt used),
            (''voice_script_error'',
               JStr ([CHR 0x27] @ py_type_name flag @ [CHR 0x27] @ '' object is not callable''))]"
  using assms by (simp add: assemble_output_def dict_get_def call_object_def)

text \<open>
  Claim C3. For an authenticated, valid request whose \<open>generate_voice_script\<close> is true
  and whose main completion call returns within its budget, the handler returns a success
  response with \<open>script\<close>, \<open>hook\<close> and \<open>word_count\<close>, with a \<open>voice_script_error\<close> that
  carries the message of the failure, and without \<open>voice_script\<close>, \<open>error\<close> or \<open>code\<close>.
  In this code the voice step fails for every such request: the name
  \<open>generate_voice_script\<close> is the flag of the input inside \<open>generate\<close>, calling it raises
  \<^verbatim>\<open>TypeError\<close>, and the main call is the only completion call made.
\<close>

theorem voice_failure_isolated:
  assumes req: "(case req_json request of None \<Rightarrow> JDict [] | Some e \<Rightarrow> e) = JDict event"
    and auth: "validate_api_key env (collect_headers env request event)"
    and inp: "map_of event ''input'' = Some (JDict d)"
    and valid: "validate_input env (JDict d) = Inr (True, None, None)"
    and flag: "map_of d ''generate_voice_script'' = Some flag" "py_truthy flag"
    and calls: "fst (generate env request) = call # rest"
    and main: "complete env call = Inr (content, used)" "used \<le> call_max_tokens call"
  shows "\<exists>response hook.
           generate env request = ([call], Inr response)
         \<and> extract_hook (strip content) = Some hook
         \<and> map_of response ''script'' = Some (JStr (strip content))
         \<and> map_of response ''hook'' = Some (JStr hook)
         \<and> map_of response ''word_count'' = Some (JInt (count_words (strip content)))
         \<and> map_of response ''voice_script_error''
             = Some (JStr ([CHR 0x27] @ py_type_name flag @ [CHR 0x27] @ '' object is not callable''))
         \<and> map_of response ''voice_script'' = None
         \<and> map_of response ''error'' = None
         \<and> map_of response ''code'' = None"
proof -
  have ne: "d \<noteq> []" using valid by (rule validate_input_nonempty)
  have gen: "generate env request = run_generation env d"
    using req auth inp valid ne by (simp add: generate_def dict_get_def)
  obtain hook where hook: "extract_hook (strip content) = Some hook"
    using extract_hook_total by blast
  have "generate env request = ([call], Inr (assemble_output d (strip content) used))"
    unfolding gen using calls main by (intro run_generation_ok) (simp_all add: gen)
  then show ?thesis
    using hook by (simp add: assemble_output_voice [OF flag hook])
qed

theorem voice_failure_isolated_witness:
  "\<exists>response.
     generate (example_env (\<lambda>c. Inr (''  Why do cats purr? '', 120)) [])
        (example_request (example_input 150 @ [(''generate_voice_script'', JBool True)]))
       = ([\<lparr> system_message = ''You are an expert scriptwriter for short-form video content.'',
             user_prompt = build_main_prompt ''cats'' ''30s'' ''funny'' ''question'' None
                             ''Autopostai.Video'' True,
             call_model = ''llama-3-8b'',
             call_max_tokens = 150 \<rparr>], Inr response)
     \<and> map_of response ''script'' = Some (JStr ''Why do cats purr?'')
     \<and> map_of response ''hook'' = Some (JStr ''Why do cats purr?'')
     \<and> map_of response ''word_count'' = Some (JInt 4)
     \<and> map_of response ''voice_script_error'' = Some (JStr (CHR 0x27 # ''bool' object is not callable''))
     \<and> map_of response ''voice_script'' = None
     \<and> map_of response ''error'' = None
     \<and> map_of response ''code'' = None"
proof -
  let ?env = "example_env (\<lambda>c. Inr (''  Why do cats purr? '', 120)) []"
  let ?d = "example_input 150 @ [(''generate_voice_script'', JBool True)]"
  let ?req = "example_request ?d"
  let ?call = "\<lparr> system_message = ''You are an expert scriptwriter for short-form video content.'',
             user_prompt = build_main_prompt ''cats'' ''30s'' ''funny'' ''question'' None
                             ''Autopostai.Video'' True,
             call_model = ''llama-3-8b'',
             call_max_tokens = 150 \<rparr>"
  have req: "(case req_json ?req of None \<Rightarrow> JDict [] | Some e \<Rightarrow> e) = JDict [(''input'', JDict ?d)]"
    by (simp add: example_request_def)
  have auth: "validate_api_key ?env (collect_headers ?env ?req [(''input'', JDict ?d)])"
    by (simp add: validate_api_key_def example_env_def)
  have inp: "map_of [(''input'', JDict ?d)] ''input'' = Some (JDict ?d)" by simp
  have valid: "validate_input ?env (JDict ?d) = Inr (True, None, None)"
    by (rule example_input_valid)
  have flag: "map_of ?d ''generate_voice_script'' = Some (JBool True)" "py_truthy (JBool True)"
    by (simp_all add: example_input_def)
  have run: "fst (run_generation ?env ?d) = [?call]"
    by (simp add: run_generation_def generate_script_def example_input_def example_env_def
        dict_get_def py_format_def opt_text_def Let_def split: sum.splits prod.splits)
  have calls: "fst (generate ?env ?req) = ?call # []"
    using valid run
    by (simp add: generate_def example_request_def validate_api_key_def dict_get_def
        example_env_def example_input_def)
  have main: "complete ?env ?call = Inr (''  Why do cats purr? '', 120)"
    "120 \<le> call_max_tokens ?call"
    by (simp_all add: example_env_def)
  have st: "strip ''  Why do cats purr? '' = ''Why do cats purr?''"
    by (simp add: strip_def py_isspace_def)
  have hk: "extract_hook ''Why do cats purr?'' = Some ''Why do cats purr?''"
    by (simp add: extract_hook_def strip_def py_isspace_def)
  have wc: "count_words ''Why do cats purr?'' = 4"
    by (simp add: count_words_def split_ws.simps py_isspace_def)
  show ?thesis
    using voice_failure_isolated [OF req auth inp valid flag calls main]
    by (auto simp: st hk wc)
qed

end
